theory Spec2Isabelle
  imports Complex_Main "HOL-Library.Log_Nat"
begin

section \<open>ESP32 servo library: the data model\<close>

text \<open>
  The embedding follows \<^verbatim>\<open>src/src/ESP32_Servo.cpp\<close>. The class \<^verbatim>\<open>Servo\<close> has the seven
  fields the source file uses and two static members, \<^verbatim>\<open>ServoCount\<close> and the array
  \<^verbatim>\<open>ChannelUsed\<close>; the header that declares them is not part of the sources, and all of
  them are taken as \<^verbatim>\<open>int\<close>, as the source file declares the static ones.
  C++ \<^verbatim>\<open>int\<close> values are modelled as unbounded \<open>int\<close>: none of the statements below
  leaves the 32-bit range. What C++ leaves undefined (an integer division by zero, a
  shift by a negative count, a conversion of an out-of-range or non-finite float to
  \<^verbatim>\<open>int\<close>) is an error value.
\<close>

datatype error = DivisionByZero | ShiftCount | FloatToIntRange

text \<open>
  The header \<^verbatim>\<open>ESP32_Servo.h\<close> is not part of the sources. The two macros whose values
  the specification does not give are parameters of the model.
\<close>

record header =
  MAX_SERVOS :: int
  DEFAULT_PULSE_WIDTH_TICKS :: int

text \<open>Modelled from the spec: the macros of the missing header whose values section 6 gives.\<close>

definition MIN_PULSE_WIDTH :: int where "MIN_PULSE_WIDTH = 500"
definition MAX_PULSE_WIDTH :: int where "MAX_PULSE_WIDTH = 2500"
definition DEFAULT_uS_LOW :: int where "DEFAULT_uS_LOW = 544"
definition DEFAULT_uS_HIGH :: int where "DEFAULT_uS_HIGH = 2400"
definition DEFAULT_TIMER_WIDTH :: int where "DEFAULT_TIMER_WIDTH = 16"
definition REFRESH_USEC :: int where "REFRESH_USEC = 20000"
definition REFRESH_CPS :: int where "REFRESH_CPS = 50"

text \<open>
  The values of the ESP32 build, used where a statement is evaluated: sixteen PWM
  channels (the note at the head of the source file) and 4825 default ticks.
\<close>

definition esp32 :: header where
  "esp32 = \<lparr>MAX_SERVOS = 16, DEFAULT_PULSE_WIDTH_TICKS = 4825\<rparr>"

text \<open>The fields of one \<^verbatim>\<open>Servo\<close> object; \<open>min_us\<close> and \<open>max_us\<close> are the fields \<^verbatim>\<open>min\<close> and \<^verbatim>\<open>max\<close>.\<close>

record servo =
  servoChannel :: int
  ticks :: int
  timer_width :: int
  pinNumber :: int
  min_us :: int
  max_us :: int
  timer_width_ticks :: int

text \<open>The calls into the LEDC driver, recorded in the order they are made.\<close>

datatype ledc_call =
  LedcSetup int int int
  | LedcAttachPin int int
  | LedcDetachPin int
  | LedcWrite int int

text \<open>
  The process-wide state: the two static members and the driver calls made so far.
  \<^verbatim>\<open>ChannelUsed\<close> is a store from index to value; every index the operations use on a
  constructed object lies in \<open>0..MAX_SERVOS\<close> (lemma \<open>Servo_channel_range\<close>).
\<close>

record globals =
  ServoCount :: int
  ChannelUsed :: "int \<Rightarrow> int"
  ledc :: "ledc_call list"

definition initial :: globals where
  "initial = \<lparr>ServoCount = 0, ChannelUsed = (\<lambda>i. 0), ledc = []\<rparr>"

section \<open>The constructor\<close>

text \<open>
  The loop of lines 71-81: the first index \<open>i\<close> from the given one up to \<open>MAX_SERVOS\<close>
  whose slot holds \<open>-1\<close>, if there is one.
\<close>

function reuse_loop :: "int \<Rightarrow> (int \<Rightarrow> int) \<Rightarrow> int \<Rightarrow> int option" where
  "reuse_loop M cu i =
     (if i < M + 1 then (if cu i = -1 then Some i else reuse_loop M cu (i + 1)) else None)"
  by pat_completeness auto
termination
  by (relation "measure (\<lambda>(M, cu, i). nat (M + 1 - i))") auto

declare reuse_loop.simps [simp del]

text \<open>\<^verbatim>\<open>pow(2, timer_width)\<close> stored into an \<^verbatim>\<open>int\<close>; the width is 16..20 wherever it is called.\<close>

definition pow2 :: "int \<Rightarrow> int" where
  "pow2 w = 2 ^ nat w"

text \<open>Lines 96-105: the fields are written only when a channel was obtained.\<close>

definition init_fields :: "header \<Rightarrow> servo \<Rightarrow> servo" where
  "init_fields h s =
     (if servoChannel s > 0
      then s\<lparr>ticks := DEFAULT_PULSE_WIDTH_TICKS h, timer_width := DEFAULT_TIMER_WIDTH,
             pinNumber := -1, min_us := DEFAULT_uS_LOW, max_us := DEFAULT_uS_HIGH,
             timer_width_ticks := pow2 DEFAULT_TIMER_WIDTH\<rparr>
      else s)"

text \<open>
  \<^verbatim>\<open>Servo::Servo()\<close>. The first argument is the object's storage before the constructor
  runs: the constructor leaves the fields it does not write as they were.
\<close>

definition Servo :: "header \<Rightarrow> servo \<Rightarrow> globals \<Rightarrow> servo \<times> globals" where
  "Servo h raw g =
     (case reuse_loop (MAX_SERVOS h) (ChannelUsed g) 1 of
        Some i \<Rightarrow>
          (init_fields h (raw\<lparr>servoChannel := i\<rparr>),
           g\<lparr>ChannelUsed := (ChannelUsed g)(i := 1)\<rparr>)
      | None \<Rightarrow>
          (if ServoCount g < MAX_SERVOS h
           then (init_fields h (raw\<lparr>servoChannel := ServoCount g + 1\<rparr>),
                 g\<lparr>ServoCount := ServoCount g + 1,
                   ChannelUsed := (ChannelUsed g)(ServoCount g + 1 := 1)\<rparr>)
           else (init_fields h (raw\<lparr>servoChannel := 0\<rparr>), g)))"

text \<open>Constructing one object after the other, each from its own storage.\<close>

fun constructs :: "header \<Rightarrow> servo list \<Rightarrow> globals \<Rightarrow> servo list \<times> globals" where
  "constructs h [] g = ([], g)"
| "constructs h (raw # raws) g =
     (let (s, g1) = Servo h raw g; (ss, g2) = constructs h raws g1 in (s # ss, g2))"

section \<open>Attaching and detaching\<close>

text \<open>\<^verbatim>\<open>Servo::attached()\<close>: the slot's \<^verbatim>\<open>int\<close> converted to \<^verbatim>\<open>bool\<close>, true for every nonzero value.\<close>

definition attached :: "servo \<Rightarrow> globals \<Rightarrow> bool" where
  "attached s g = (ChannelUsed g (servoChannel s) \<noteq> 0)"

text \<open>
  \<^verbatim>\<open>Servo::attach(int pin, int min, int max)\<close>, returning the \<^verbatim>\<open>int\<close> result with the new
  state. \<^verbatim>\<open>ENFORCE_PINS\<close> is commented out at line 57, so the pin test is not compiled.
\<close>

definition attach :: "header \<Rightarrow> int \<Rightarrow> int \<Rightarrow> int \<Rightarrow> servo \<Rightarrow> globals \<Rightarrow> int \<times> servo \<times> globals" where
  "attach h pin mn mx s g =
     (if servoChannel s \<le> MAX_SERVOS h \<and> servoChannel s > 0
      then
        let (s1, g1) =
              (if pinNumber s < 0
               then (s\<lparr>ticks := DEFAULT_PULSE_WIDTH_TICKS h, timer_width := DEFAULT_TIMER_WIDTH,
                       timer_width_ticks := pow2 DEFAULT_TIMER_WIDTH\<rparr>,
                     g\<lparr>ChannelUsed := (ChannelUsed g)(servoChannel s := 1)\<rparr>)
               else (s, g));
            s2 = s1\<lparr>pinNumber := pin\<rparr>;
            mn1 = (if mn < MIN_PULSE_WIDTH then MIN_PULSE_WIDTH else mn);
            mx1 = (if mx > MAX_PULSE_WIDTH then MAX_PULSE_WIDTH else mx);
            s3 = s2\<lparr>min_us := mn1, max_us := mx1\<rparr>;
            g2 = g1\<lparr>ledc := ledc g1 @
                   [LedcSetup (servoChannel s3) REFRESH_CPS (timer_width s3),
                    LedcAttachPin (pinNumber s3) (servoChannel s3)]\<rparr>
        in (1, s3, g2)
      else (0, s, g))"

text \<open>\<^verbatim>\<open>Servo::attach(int pin)\<close>.\<close>

definition attach1 :: "header \<Rightarrow> int \<Rightarrow> servo \<Rightarrow> globals \<Rightarrow> int \<times> servo \<times> globals" where
  "attach1 h pin s g = attach h pin DEFAULT_uS_LOW DEFAULT_uS_HIGH s g"

text \<open>\<^verbatim>\<open>Servo::detach()\<close>.\<close>

definition detach :: "servo \<Rightarrow> globals \<Rightarrow> servo \<times> globals" where
  "detach s g =
     (if attached s g
      then (s\<lparr>pinNumber := -1\<rparr>,
            g\<lparr>ChannelUsed := (ChannelUsed g)(servoChannel s := -1),
              ledc := ledc g @ [LedcDetachPin (pinNumber s)]\<rparr>)
      else (s, g))"

section \<open>Single-precision arithmetic\<close>

text \<open>
  \<^verbatim>\<open>usToTicks\<close> and \<^verbatim>\<open>ticksToUs\<close> compute in \<^verbatim>\<open>float\<close> (IEEE 754 binary32). A finite
  float is the rational number it denotes; \<open>Infinity True\<close> is the negative infinity.
  \<open>Finite 0\<close> stands for both zeros: the only zero divisor in the code is a converted
  \<^verbatim>\<open>int\<close>, which is the positive zero, and the sign of a zero result is lost in the cast
  to \<^verbatim>\<open>int\<close>. Every operation on finite numbers returns the exact result rounded to the
  nearest number with a 24-bit significand, ties to the even significand. The exponent
  of a finite number is not bounded: the operands below are 32-bit integers and 20000
  divided by one, far from overflow and underflow.
\<close>

datatype float = Finite rat | Infinity bool | NaN


definition pow2r :: "int \<Rightarrow> rat" where
  "pow2r k = (if 0 \<le> k then 2 ^ nat k else 1 / 2 ^ nat (- k))"

text \<open>For \<open>x > 0\<close>, the exponent \<open>e\<close> with \<open>2^e \<le> x < 2^(e+1)\<close>.\<close>

definition ilog2 :: "rat \<Rightarrow> int" where
  "ilog2 x = (if 1 \<le> x then bitlen \<lfloor>x\<rfloor> - 1 else - bitlen (\<lceil>1 / x\<rceil> - 1))"

definition round_half_even :: "rat \<Rightarrow> int" where
  "round_half_even y =
     (let f = \<lfloor>y\<rfloor>; r = y - of_int f
      in if r < 1 / 2 then f else if 1 / 2 < r then f + 1 else if even f then f else f + 1)"

definition fround :: "rat \<Rightarrow> rat" where
  "fround x =
     (if x = 0 then 0
      else let u = pow2r (ilog2 \<bar>x\<bar> - 23)
           in sgn x * of_int (round_half_even (\<bar>x\<bar> / u)) * u)"

definition float_of_int :: "int \<Rightarrow> float" where
  "float_of_int i = Finite (fround (of_int i))"

fun fmul :: "float \<Rightarrow> float \<Rightarrow> float" where
  "fmul (Finite a) (Finite b) = Finite (fround (a * b))"
| "fmul (Finite a) (Infinity s) = (if a = 0 then NaN else Infinity (s \<noteq> (a < 0)))"
| "fmul (Infinity s) (Finite b) = (if b = 0 then NaN else Infinity (s \<noteq> (b < 0)))"
| "fmul (Infinity s) (Infinity t) = Infinity (s \<noteq> t)"
| "fmul NaN b = NaN"
| "fmul a NaN = NaN"

text \<open>A nonzero number divided by zero is an infinity, and a finite number divided by one is 0.\<close>

fun fdiv :: "float \<Rightarrow> float \<Rightarrow> float" where
  "fdiv (Finite a) (Finite b) =
     (if b = 0 then (if a = 0 then NaN else Infinity (a < 0)) else Finite (fround (a / b)))"
| "fdiv (Finite a) (Infinity s) = Finite 0"
| "fdiv (Infinity s) (Finite b) = Infinity (s \<noteq> (b < 0))"
| "fdiv (Infinity s) (Infinity t) = NaN"
| "fdiv NaN b = NaN"
| "fdiv a NaN = NaN"

text \<open>
  The cast \<^verbatim>\<open>(int)\<close> of a float: truncation towards zero, defined for a finite number
  inside the \<^verbatim>\<open>int\<close> range.
\<close>

fun int_of_float :: "float \<Rightarrow> error + int" where
  "int_of_float (Finite x) =
     (if - (2 ^ 31) - 1 < x \<and> x < 2 ^ 31
      then Inr (if 0 \<le> x then \<lfloor>x\<rfloor> else \<lceil>x\<rceil>)
      else Inl FloatToIntRange)"
| "int_of_float (Infinity s) = Inl FloatToIntRange"
| "int_of_float NaN = Inl FloatToIntRange"

section \<open>Pulse conversion\<close>

text \<open>The tick length \<^verbatim>\<open>(float)REFRESH_USEC / (float)this->timer_width_ticks\<close>.\<close>

definition tick_length :: "servo \<Rightarrow> float" where
  "tick_length s = fdiv (float_of_int REFRESH_USEC) (float_of_int (timer_width_ticks s))"

text \<open>\<^verbatim>\<open>Servo::usToTicks(int usec)\<close>.\<close>

definition usToTicks :: "servo \<Rightarrow> int \<Rightarrow> error + int" where
  "usToTicks s usec = int_of_float (fdiv (float_of_int usec) (tick_length s))"

text \<open>\<^verbatim>\<open>Servo::ticksToUs(int ticks)\<close>.\<close>

definition ticksToUs :: "servo \<Rightarrow> int \<Rightarrow> error + int" where
  "ticksToUs s t = int_of_float (fmul (float_of_int t) (tick_length s))"

text \<open>C's integer division truncates towards zero.\<close>

definition cdiv :: "int \<Rightarrow> int \<Rightarrow> int" where
  "cdiv a b = sgn a * sgn b * (\<bar>a\<bar> div \<bar>b\<bar>)"

text \<open>
  Modelled from the spec: Arduino's \<^verbatim>\<open>map\<close>, a function of the core library that is not
  part of the sources. It is the range mapping of section 4.2 of the specification, in
  integer arithmetic: \<^verbatim>\<open>(x - in_min) * (out_max - out_min) / (in_max - in_min) + out_min\<close>.
\<close>

definition map_long :: "int \<Rightarrow> int \<Rightarrow> int \<Rightarrow> int \<Rightarrow> int \<Rightarrow> error + int" where
  "map_long x in_min in_max out_min out_max =
     (if in_max - in_min = 0 then Inl DivisionByZero
      else Inr (cdiv ((x - in_min) * (out_max - out_min)) (in_max - in_min) + out_min))"

section \<open>Writing and reading\<close>

text \<open>\<^verbatim>\<open>Servo::writeMicroseconds(int value)\<close>.\<close>

definition writeMicroseconds :: "header \<Rightarrow> int \<Rightarrow> servo \<Rightarrow> globals \<Rightarrow> error + servo \<times> globals" where
  "writeMicroseconds h value s g =
     (if servoChannel s \<le> MAX_SERVOS h \<and> attached s g
      then
        let v = (if value < min_us s then min_us s
                 else if value > max_us s then max_us s else value)
        in case usToTicks s v of
             Inl e \<Rightarrow> Inl e
           | Inr t \<Rightarrow> Inr (s\<lparr>ticks := t\<rparr>, g\<lparr>ledc := ledc g @ [LedcWrite (servoChannel s) t]\<rparr>)
      else Inr (s, g))"

text \<open>\<^verbatim>\<open>Servo::write(int value)\<close> (\<open>write\<close> is a keyword of Isar, hence the suffix).\<close>

definition write_servo :: "header \<Rightarrow> int \<Rightarrow> servo \<Rightarrow> globals \<Rightarrow> error + servo \<times> globals" where
  "write_servo h value s g =
     (if value < MIN_PULSE_WIDTH
      then
        let v = (if value < 0 then 0 else if value > 180 then 180 else value)
        in case map_long v 0 180 (min_us s) (max_us s) of
             Inl e \<Rightarrow> Inl e
           | Inr v' \<Rightarrow> writeMicroseconds h v' s g
      else writeMicroseconds h value s g)"

text \<open>\<^verbatim>\<open>Servo::readMicroseconds()\<close>.\<close>

definition readMicroseconds :: "header \<Rightarrow> servo \<Rightarrow> globals \<Rightarrow> error + int" where
  "readMicroseconds h s g =
     (if servoChannel s \<le> MAX_SERVOS h \<and> attached s g then ticksToUs s (ticks s) else Inr 0)"

text \<open>\<^verbatim>\<open>Servo::read()\<close>.\<close>

definition read :: "header \<Rightarrow> servo \<Rightarrow> globals \<Rightarrow> error + int" where
  "read h s g =
     (case readMicroseconds h s g of
        Inl e \<Rightarrow> Inl e
      | Inr us \<Rightarrow> map_long (us + 1) (min_us s) (max_us s) 0 180)"

section \<open>Changing the timer width\<close>

text \<open>A value reduced to 32 bits in two's complement.\<close>

definition wrap32 :: "int \<Rightarrow> int" where
  "wrap32 y = (y + 2 ^ 31) mod 2 ^ 32 - 2 ^ 31"

text \<open>
  The shifts \<^verbatim>\<open><<=\<close> and \<^verbatim>\<open>>>=\<close> on a 32-bit \<^verbatim>\<open>int\<close>: undefined for a negative count and for
  a count of 32 or more. A left shift keeps the low 32 bits of the product, as the
  target computes it; a right shift is arithmetic.
\<close>

definition shl :: "int \<Rightarrow> int \<Rightarrow> error + int" where
  "shl x n = (if n < 0 \<or> 32 \<le> n then Inl ShiftCount else Inr (wrap32 (x * 2 ^ nat n)))"

definition shr :: "int \<Rightarrow> int \<Rightarrow> error + int" where
  "shr x n = (if n < 0 \<or> 32 \<le> n then Inl ShiftCount else Inr (x div 2 ^ nat n))"

text \<open>\<^verbatim>\<open>Servo::setTimerWidth(int value)\<close>.\<close>

definition setTimerWidth :: "header \<Rightarrow> int \<Rightarrow> servo \<Rightarrow> globals \<Rightarrow> error + servo \<times> globals" where
  "setTimerWidth h value s g =
     (let v = (if value < 16 then 16 else if value > 20 then 20 else value);
          widthDifference = timer_width s - v
      in case (if widthDifference > 0 then shl (ticks s) widthDifference
               else shr (ticks s) widthDifference) of
           Inl e \<Rightarrow> Inl e
         | Inr t \<Rightarrow>
             (let s1 = s\<lparr>ticks := t, timer_width := v, timer_width_ticks := pow2 v\<rparr>
              in if servoChannel s1 \<le> MAX_SERVOS h \<and> attached s1 g
                 then Inr (s1, g\<lparr>ledc := ledc g @
                             [LedcDetachPin (pinNumber s1),
                              LedcSetup (servoChannel s1) REFRESH_CPS (timer_width s1),
                              LedcAttachPin (pinNumber s1) (servoChannel s1)]\<rparr>)
                 else Inr (s1, g)))"

text \<open>\<^verbatim>\<open>Servo::readTimerWidth()\<close>.\<close>

definition readTimerWidth :: "servo \<Rightarrow> int" where
  "readTimerWidth s = timer_width s"

section \<open>Concrete states\<close>

text \<open>
  Modelled from the spec: the fields of an object before the constructor body runs. The
  class declaration, which decides them, is not part of the sources; the storage below
  holds the per-instance defaults of sections 3 and 6 of the specification (pin \<open>-1\<close>,
  bounds 544 and 2400, width 16 with \<open>2^16\<close> ticks), no channel, and the default tick
  count of the header. The constructor overwrites every field of an object that gets a
  channel; what holds of an object without a channel is stated for every storage.
\<close>

definition default_storage :: "header \<Rightarrow> servo" where
  "default_storage h = \<lparr>servoChannel = 0, ticks = DEFAULT_PULSE_WIDTH_TICKS h,
     timer_width = DEFAULT_TIMER_WIDTH, pinNumber = -1, min_us = DEFAULT_uS_LOW,
     max_us = DEFAULT_uS_HIGH, timer_width_ticks = pow2 DEFAULT_TIMER_WIDTH\<rparr>"

text \<open>
  The first object of a process after \<^verbatim>\<open>Servo s; s.attach(13); s.writeMicroseconds(1500);\<close>
  and the process state at that point (lemma \<open>demo_reached\<close>).
\<close>

definition demo_servo :: servo where
  "demo_servo = \<lparr>servoChannel = 1, ticks = 4915, timer_width = 16, pinNumber = 13,
     min_us = 544, max_us = 2400, timer_width_ticks = 65536\<rparr>"

definition demo_globals :: globals where
  "demo_globals = \<lparr>ServoCount = 1, ChannelUsed = (\<lambda>i. 0)(1 := 1),
     ledc = [LedcSetup 1 50 16, LedcAttachPin 13 1, LedcWrite 1 4915]\<rparr>"

text \<open>Three objects constructed in a row from the initial state, with the state they leave.\<close>

definition trio :: "servo list \<times> globals" where
  "trio = constructs esp32
     [default_storage esp32, default_storage esp32, default_storage esp32] initial"

text \<open>
  The object constructed on the storage \<open>raw\<close> after the objects on \<open>raws\<close>, with the
  process state it leaves.
\<close>

definition overflow :: "header \<Rightarrow> servo list \<Rightarrow> servo \<Rightarrow> servo \<times> globals" where
  "overflow h raws raw = Servo h raw (snd (constructs h raws initial))"

text \<open>
  What the constructor and every later operation keep true of an object that holds a
  channel (lemmas \<open>Servo_well_formed\<close> to \<open>setTimerWidth_well_formed\<close>).
\<close>

definition well_formed :: "header \<Rightarrow> servo \<Rightarrow> bool" where
  "well_formed h s =
     (0 < servoChannel s \<and> servoChannel s \<le> MAX_SERVOS h
      \<and> 16 \<le> timer_width s \<and> timer_width s \<le> 20
      \<and> timer_width_ticks s = pow2 (timer_width s)
      \<and> MIN_PULSE_WIDTH \<le> min_us s \<and> max_us s \<le> MAX_PULSE_WIDTH)"

section \<open>Channel allocation\<close>

lemma reuse_loop_None:
  "(\<And>j. i \<le> j \<Longrightarrow> j \<le> M \<Longrightarrow> cu j \<noteq> -1) \<Longrightarrow> reuse_loop M cu i = None"
proof (induction M cu i rule: reuse_loop.induct)
  case (1 M cu i)
  show ?case
  proof (cases "i < M + 1")
    case True
    then have "cu i \<noteq> -1" using "1.prems" by simp
    moreover have "reuse_loop M cu (i + 1) = None"
      using True \<open>cu i \<noteq> -1\<close> "1.prems" by (intro "1.IH") auto
    ultimately show ?thesis using True by (subst reuse_loop.simps) simp
  next
    case False
    then show ?thesis by (subst reuse_loop.simps) simp
  qed
qed

lemma reuse_loop_Some:
  "i \<le> c \<Longrightarrow> c \<le> M \<Longrightarrow> cu c = -1 \<Longrightarrow> (\<And>j. i \<le> j \<Longrightarrow> j < c \<Longrightarrow> cu j \<noteq> -1) \<Longrightarrow>
   reuse_loop M cu i = Some c"
proof (induction M cu i rule: reuse_loop.induct)
  case (1 M cu i)
  show ?case
  proof (cases "i = c")
    case True
    then show ?thesis using "1.prems" by (subst reuse_loop.simps) simp
  next
    case False
    then have lt: "i < c" using "1.prems" by simp
    then have ne: "cu i \<noteq> -1" using "1.prems" by simp
    have "reuse_loop M cu (i + 1) = Some c"
      using lt ne "1.prems" by (intro "1.IH") auto
    then show ?thesis using lt ne "1.prems" by (subst reuse_loop.simps) simp
  qed
qed

lemma reuse_loop_range:
  "reuse_loop M cu i = Some c \<Longrightarrow> i \<le> c \<and> c \<le> M \<and> cu c = -1"
proof (induction M cu i rule: reuse_loop.induct)
  case (1 M cu i)
  from "1.prems" show ?case
    by (subst (asm) reuse_loop.simps) (use "1.IH" in \<open>auto split: if_splits\<close>)
qed

text \<open>When some slot from \<open>i\<close> on holds \<open>-1\<close>, the loop returns the lowest such index.\<close>

lemma reuse_loop_finds:
  assumes "i \<le> k" and "k \<le> M" and "cu k = -1"
  shows "\<exists>c. reuse_loop M cu i = Some c \<and> i \<le> c \<and> c \<le> k \<and> cu c = -1
           \<and> (\<forall>j. i \<le> j \<and> j < c \<longrightarrow> cu j \<noteq> -1)"
  using assms
proof (induction M cu i rule: reuse_loop.induct)
  case (1 M cu i)
  show ?case
  proof (cases "cu i = -1")
    case True
    then have "reuse_loop M cu i = Some i"
      using "1.prems" by (subst reuse_loop.simps) simp
    then show ?thesis using True "1.prems" by auto
  next
    case False
    then have lt: "i < k" using "1.prems" by (cases "i = k") auto
    then obtain c where c: "reuse_loop M cu (i + 1) = Some c" "i + 1 \<le> c" "c \<le> k" "cu c = -1"
      "\<forall>j. i + 1 \<le> j \<and> j < c \<longrightarrow> cu j \<noteq> -1"
      using "1.IH" False "1.prems" by auto
    have "reuse_loop M cu i = Some c"
      using c(1) False lt "1.prems" by (subst reuse_loop.simps) simp
    moreover have "\<forall>j. i \<le> j \<and> j < c \<longrightarrow> cu j \<noteq> -1"
    proof (intro allI impI)
      fix j assume "i \<le> j \<and> j < c"
      then show "cu j \<noteq> -1" using False c(5) by (cases "j = i") auto
    qed
    ultimately show ?thesis using c by auto
  qed
qed

lemma init_fields_channel [simp]: "servoChannel (init_fields h s) = servoChannel s"
  by (simp add: init_fields_def)

text \<open>Every constructed object holds a channel in \<open>0..MAX_SERVOS\<close>.\<close>

lemma Servo_channel_range:
  assumes "0 \<le> ServoCount g"
  shows "0 \<le> servoChannel (fst (Servo h raw g)) \<and> servoChannel (fst (Servo h raw g)) \<le> max 0 (MAX_SERVOS h)"
proof (cases "reuse_loop (MAX_SERVOS h) (ChannelUsed g) 1")
  case None
  then show ?thesis using assms by (simp add: Servo_def)
next
  case (Some c)
  then show ?thesis using reuse_loop_range [OF Some] by (simp add: Servo_def)
qed

lemma Servo_fresh:
  assumes "\<And>j. ChannelUsed g j \<noteq> -1" and "ServoCount g < MAX_SERVOS h"
  shows "Servo h raw g =
    (init_fields h (raw\<lparr>servoChannel := ServoCount g + 1\<rparr>),
     g\<lparr>ServoCount := ServoCount g + 1, ChannelUsed := (ChannelUsed g)(ServoCount g + 1 := 1)\<rparr>)"
  using assms by (simp add: Servo_def reuse_loop_None)

lemma constructs_fresh:
  "(\<And>j. ChannelUsed g j \<noteq> -1) \<Longrightarrow> ServoCount g + int (length raws) \<le> MAX_SERVOS h \<Longrightarrow>
   map servoChannel (fst (constructs h raws g))
     = [ServoCount g + 1 .. ServoCount g + int (length raws)]"
proof (induction raws arbitrary: g)
  case Nil
  then show ?case by simp
next
  case (Cons raw raws)
  let ?g1 = "g\<lparr>ServoCount := ServoCount g + 1,
                ChannelUsed := (ChannelUsed g)(ServoCount g + 1 := 1)\<rparr>"
  have S: "Servo h raw g = (init_fields h (raw\<lparr>servoChannel := ServoCount g + 1\<rparr>), ?g1)"
    using Cons.prems by (intro Servo_fresh) auto
  have IH: "map servoChannel (fst (constructs h raws ?g1))
      = [ServoCount ?g1 + 1 .. ServoCount ?g1 + int (length raws)]"
    using Cons.prems by (intro Cons.IH) auto
  have "[ServoCount g + 1 .. ServoCount g + int (length (raw # raws))]
      = (ServoCount g + 1) # [ServoCount g + 1 + 1 .. ServoCount g + 1 + int (length raws)]"
    by (subst upto_rec1) (auto simp: algebra_simps)
  then show ?case using S IH by (simp add: split_beta Let_def)
qed

lemma constructs_fresh_state:
  "(\<And>j. ChannelUsed g j \<noteq> -1) \<Longrightarrow> 0 \<le> ServoCount g \<Longrightarrow>
   ServoCount g + int (length raws) \<le> MAX_SERVOS h \<Longrightarrow>
   ServoCount (snd (constructs h raws g)) = ServoCount g + int (length raws)
   \<and> (\<forall>j. ChannelUsed (snd (constructs h raws g)) j \<noteq> -1)
   \<and> ChannelUsed (snd (constructs h raws g)) 0 = ChannelUsed g 0"
proof (induction raws arbitrary: g)
  case Nil
  then show ?case by simp
next
  case (Cons raw raws)
  let ?g1 = "g\<lparr>ServoCount := ServoCount g + 1,
                ChannelUsed := (ChannelUsed g)(ServoCount g + 1 := 1)\<rparr>"
  have S: "Servo h raw g = (init_fields h (raw\<lparr>servoChannel := ServoCount g + 1\<rparr>), ?g1)"
    using Cons.prems by (intro Servo_fresh) auto
  have IH: "ServoCount (snd (constructs h raws ?g1)) = ServoCount ?g1 + int (length raws)
      \<and> (\<forall>j. ChannelUsed (snd (constructs h raws ?g1)) j \<noteq> -1)
      \<and> ChannelUsed (snd (constructs h raws ?g1)) 0 = ChannelUsed ?g1 0"
    using Cons.prems by (intro Cons.IH) auto
  show ?case using S IH Cons.prems(2) by (simp add: split_beta Let_def)
qed

text \<open>
  C1. From the initial process state, \<open>N \<le> MAX_SERVOS\<close> constructions in a row with no
  detach give the i-th object the channel number \<open>i\<close>: the channels of the objects, in
  the order of construction, are \<open>1, 2, ..., N\<close>, so they are distinct and fill \<open>[1, N]\<close>.
\<close>

theorem constructs_channels_sequential:
  assumes "int (length raws) \<le> MAX_SERVOS h"
  shows "map servoChannel (fst (constructs h raws initial)) = [1 .. int (length raws)]
       \<and> distinct (map servoChannel (fst (constructs h raws initial)))
       \<and> set (map servoChannel (fst (constructs h raws initial))) = {1 .. int (length raws)}"
proof -
  have "map servoChannel (fst (constructs h raws initial)) = [1 .. int (length raws)]"
    using constructs_fresh [of initial raws h] assms by (simp add: initial_def)
  then show ?thesis by simp
qed

theorem constructs_channels_sequential_witness:
  "map servoChannel (fst (constructs esp32
      [default_storage esp32, default_storage esp32, default_storage esp32] initial))
     = [1, 2, 3]"
proof -
  have "[1 .. 3] = [1, 2, 3 :: int]" by code_simp
  then show ?thesis
    using constructs_channels_sequential
      [of "[default_storage esp32, default_storage esp32, default_storage esp32]" esp32]
    by (simp add: esp32_def)
qed

text \<open>
  With three objects constructed, detaching the first and then the third leaves two
  reclaimable slots, and the next object gets channel 1, not the channel 3 of the object
  detached last.
\<close>

theorem detach_two_construct_lowest:
  "servoChannel (last (fst trio)) = 3
   \<and> attached (last (fst trio)) (snd (detach (hd (fst trio)) (snd trio)))
   \<and> servoChannel (fst (Servo esp32 (default_storage esp32)
        (snd (detach (last (fst trio)) (snd (detach (hd (fst trio)) (snd trio))))))) = 1"
  by code_simp

text \<open>
  C2 (amended). When some slot \<open>k\<close> in \<open>1..MAX_SERVOS\<close> holds \<open>-1\<close>, the constructor takes
  the lowest-indexed slot \<open>c\<close> that holds \<open>-1\<close>: the new object gets the channel \<open>c\<close>, the
  slot is marked in use, and nothing else of the process state changes. Detaching an
  attached object \<open>a\<close> and then constructing an object gives it the channel of \<open>a\<close>
  exactly when no slot below the channel of \<open>a\<close> is reclaimable.
\<close>

theorem Servo_reclaims_lowest:
  assumes "1 \<le> k" and "k \<le> MAX_SERVOS h"
  shows "(ChannelUsed g k = -1 \<longrightarrow>
            (\<exists>c. 1 \<le> c \<and> c \<le> k \<and> ChannelUsed g c = -1
               \<and> (\<forall>j. 1 \<le> j \<and> j < c \<longrightarrow> ChannelUsed g j \<noteq> -1)
               \<and> servoChannel (fst (Servo h raw g)) = c
               \<and> Servo h raw g = (init_fields h (raw\<lparr>servoChannel := c\<rparr>),
                                g\<lparr>ChannelUsed := (ChannelUsed g)(c := 1)\<rparr>)))
       \<and> (servoChannel a = k \<and> attached a g \<longrightarrow>
            (servoChannel (fst (Servo h raw (snd (detach a g)))) = k)
              = (\<forall>j. 1 \<le> j \<and> j < k \<longrightarrow> ChannelUsed g j \<noteq> -1))"
proof (intro conjI impI)
  assume r: "ChannelUsed g k = -1"
  obtain c where c: "reuse_loop (MAX_SERVOS h) (ChannelUsed g) 1 = Some c" "1 \<le> c" "c \<le> k"
      "ChannelUsed g c = -1" "\<forall>j. 1 \<le> j \<and> j < c \<longrightarrow> ChannelUsed g j \<noteq> -1"
    using reuse_loop_finds [of 1 k "MAX_SERVOS h" "ChannelUsed g"] assms r by blast
  have "Servo h raw g = (init_fields h (raw\<lparr>servoChannel := c\<rparr>),
                         g\<lparr>ChannelUsed := (ChannelUsed g)(c := 1)\<rparr>)"
    using c(1) by (simp add: Servo_def)
  then show "\<exists>c. 1 \<le> c \<and> c \<le> k \<and> ChannelUsed g c = -1
               \<and> (\<forall>j. 1 \<le> j \<and> j < c \<longrightarrow> ChannelUsed g j \<noteq> -1)
               \<and> servoChannel (fst (Servo h raw g)) = c
               \<and> Servo h raw g = (init_fields h (raw\<lparr>servoChannel := c\<rparr>),
                                g\<lparr>ChannelUsed := (ChannelUsed g)(c := 1)\<rparr>)"
    using c(2-5) by (intro exI [of _ c]) simp
next
  assume a: "servoChannel a = k \<and> attached a g"
  let ?g = "snd (detach a g)"
  have cu: "ChannelUsed ?g = (ChannelUsed g)(k := -1)"
    using a by (simp add: detach_def)
  show "(servoChannel (fst (Servo h raw ?g)) = k)
      = (\<forall>j. 1 \<le> j \<and> j < k \<longrightarrow> ChannelUsed g j \<noteq> -1)"
  proof
    assume "\<forall>j. 1 \<le> j \<and> j < k \<longrightarrow> ChannelUsed g j \<noteq> -1"
    then have "reuse_loop (MAX_SERVOS h) (ChannelUsed ?g) 1 = Some k"
      using assms unfolding cu by (intro reuse_loop_Some) auto
    then show "servoChannel (fst (Servo h raw ?g)) = k"
      by (simp add: Servo_def)
  next
    assume eq: "servoChannel (fst (Servo h raw ?g)) = k"
    show "\<forall>j. 1 \<le> j \<and> j < k \<longrightarrow> ChannelUsed g j \<noteq> -1"
    proof (intro allI impI notI)
      fix j assume j: "1 \<le> j \<and> j < k" and m: "ChannelUsed g j = -1"
      have "ChannelUsed ?g j = -1" using j m by (simp add: cu)
      then obtain c where c: "reuse_loop (MAX_SERVOS h) (ChannelUsed ?g) 1 = Some c" "c \<le> j"
        using reuse_loop_finds [of 1 j "MAX_SERVOS h" "ChannelUsed ?g"] assms j by force
      then have "servoChannel (fst (Servo h raw ?g)) = c" by (simp add: Servo_def)
      then show False using eq c(2) j by simp
    qed
  qed
qed

lemma trio_slots:
  "ServoCount (snd trio) = 3 \<and> (\<forall>j. ChannelUsed (snd trio) j \<noteq> -1)"
  unfolding trio_def
  using constructs_fresh_state
    [of initial "[default_storage esp32, default_storage esp32, default_storage esp32]" esp32]
  by (simp add: initial_def esp32_def)

theorem Servo_reclaims_lowest_witness:
  "servoChannel (last (fst trio)) = 3 \<and> attached (last (fst trio)) (snd trio)
   \<and> servoChannel (fst (Servo esp32 (default_storage esp32)
        (snd (detach (last (fst trio)) (snd trio))))) = 3"
proof -
  have a: "servoChannel (last (fst trio)) = 3" "attached (last (fst trio)) (snd trio)"
    by code_simp+
  have "servoChannel (fst (Servo esp32 (default_storage esp32)
        (snd (detach (last (fst trio)) (snd trio))))) = 3"
    using Servo_reclaims_lowest [where k = 3 and h = esp32 and a = "last (fst trio)"
        and g = "snd trio" and raw = "default_storage esp32"] a trio_slots
    by (simp add: esp32_def)
  then show ?thesis using a by simp
qed

section \<open>The object without a channel\<close>

lemma Servo_exhausted:
  assumes "\<And>j. ChannelUsed g j \<noteq> -1" and "MAX_SERVOS h \<le> ServoCount g"
  shows "Servo h raw g = (raw\<lparr>servoChannel := 0\<rparr>, g)"
  using assms by (simp add: Servo_def reuse_loop_None init_fields_def)

text \<open>
  After \<open>MAX_SERVOS\<close> constructions from the initial state the next constructor gives
  channel 0 and writes nothing else, neither to the object nor to the process state.
\<close>

lemma overflow_gets_sentinel:
  assumes "int (length raws) = MAX_SERVOS h"
  shows "Servo h raw (snd (constructs h raws initial))
           = (raw\<lparr>servoChannel := 0\<rparr>, snd (constructs h raws initial))
       \<and> ChannelUsed (snd (constructs h raws initial)) 0 = 0"
proof -
  have st: "ServoCount (snd (constructs h raws initial)) = int (length raws)
      \<and> (\<forall>j. ChannelUsed (snd (constructs h raws initial)) j \<noteq> -1)
      \<and> ChannelUsed (snd (constructs h raws initial)) 0 = 0"
    using constructs_fresh_state [of initial raws h] assms by (simp add: initial_def)
  then show ?thesis using assms by (simp add: Servo_exhausted)
qed

text \<open>
  On an object with channel 0, while slot 0 holds 0, \<^verbatim>\<open>attach\<close> returns 0 and \<^verbatim>\<open>detach\<close> and
  \<^verbatim>\<open>writeMicroseconds\<close> change nothing, \<^verbatim>\<open>readMicroseconds\<close> returns 0, and \<^verbatim>\<open>read\<close> maps 1
  through the fields \<^verbatim>\<open>min\<close> and \<^verbatim>\<open>max\<close>, which the constructor has not written.
\<close>

lemma sentinel_operations:
  assumes "servoChannel s = 0" and "ChannelUsed g 0 = 0"
  shows "attach h pin mn mx s g = (0, s, g)"
    and "detach s g = (s, g)"
    and "writeMicroseconds h v s g = Inr (s, g)"
    and "readMicroseconds h s g = Inr 0"
    and "read h s g = map_long 1 (min_us s) (max_us s) 0 180"
  using assms
  by (simp_all add: attach_def detach_def attached_def writeMicroseconds_def
      readMicroseconds_def read_def)

text \<open>When the two fields are equal, as on zeroed storage, the range mapping divides by zero.\<close>

lemma sentinel_read_equal_bounds:
  assumes "servoChannel s = 0" and "ChannelUsed g 0 = 0" and "min_us s = max_us s"
  shows "read h s g = Inl DivisionByZero"
  using assms by (simp add: sentinel_operations map_long_def)

text \<open>
  C3. With all \<open>MAX_SERVOS\<close> channels assigned and none reclaimable, the next object,
  constructed on any storage \<open>raw\<close>, gets channel 0 and the constructor writes nothing
  else. On it \<^verbatim>\<open>attach\<close> returns 0, \<^verbatim>\<open>writeMicroseconds\<close> changes nothing and
  \<^verbatim>\<open>readMicroseconds\<close> returns 0, but \<^verbatim>\<open>read\<close> has no guard: it maps 1 from the range
  between the \<^verbatim>\<open>min\<close> and \<^verbatim>\<open>max\<close> of the storage to degrees, which is \<open>-52\<close> at the default
  bounds 544 and 2400 and not a neutral value.
\<close>

theorem overflow_read_unguarded:
  assumes "int (length raws) = MAX_SERVOS h"
  shows "overflow h raws raw = (raw\<lparr>servoChannel := 0\<rparr>, snd (constructs h raws initial))
       \<and> fst (attach h pin mn mx (fst (overflow h raws raw)) (snd (overflow h raws raw))) = 0
       \<and> writeMicroseconds h v (fst (overflow h raws raw)) (snd (overflow h raws raw))
           = Inr (overflow h raws raw)
       \<and> readMicroseconds h (fst (overflow h raws raw)) (snd (overflow h raws raw)) = Inr 0
       \<and> read h (fst (overflow h raws raw)) (snd (overflow h raws raw))
           = map_long 1 (min_us raw) (max_us raw) 0 180"
proof -
  let ?g = "snd (constructs h raws initial)"
  have o: "overflow h raws raw = (raw\<lparr>servoChannel := 0\<rparr>, ?g)" and z: "ChannelUsed ?g 0 = 0"
    using overflow_gets_sentinel [OF assms, of raw] by (simp_all add: overflow_def)
  have c: "servoChannel (raw\<lparr>servoChannel := 0\<rparr>) = 0" by simp
  show ?thesis
    unfolding o using sentinel_operations [OF c z] by simp
qed

theorem overflow_read_unguarded_witness:
  "servoChannel (fst (overflow esp32 (replicate 16 (default_storage esp32))
      (default_storage esp32))) = 0
   \<and> read esp32
        (fst (overflow esp32 (replicate 16 (default_storage esp32)) (default_storage esp32)))
        (snd (overflow esp32 (replicate 16 (default_storage esp32)) (default_storage esp32)))
      = Inr (- 52)"
proof -
  let ?raws = "replicate 16 (default_storage esp32)"
  let ?o = "overflow esp32 ?raws (default_storage esp32)"
  have n: "int (length ?raws) = MAX_SERVOS esp32" by (simp add: esp32_def)
  have b: "min_us (default_storage esp32) = 544" "max_us (default_storage esp32) = 2400"
    by (simp_all add: default_storage_def DEFAULT_uS_LOW_def DEFAULT_uS_HIGH_def)
  have m: "map_long 1 544 2400 0 180 = Inr (- 52)" by (simp add: map_long_def cdiv_def)
  from overflow_read_unguarded [OF n, of "default_storage esp32"]
  have "?o = ((default_storage esp32)\<lparr>servoChannel := 0\<rparr>, snd (constructs esp32 ?raws initial))"
    and "read esp32 (fst ?o) (snd ?o)
      = map_long 1 (min_us (default_storage esp32)) (max_us (default_storage esp32)) 0 180"
    by blast+
  then show ?thesis using b m by simp
qed

section \<open>Rounding to single precision\<close>

text \<open>
  \<open>ilog2\<close> is the binary exponent. For \<open>0 < x < 2^24\<close> the rounding moves \<open>x\<close> to a multiple
  of a power of two that divides 1, so it never crosses an integer: the truncated result
  lies between the floor and the ceiling of \<open>x\<close>.
\<close>

lemma ilog2_le:
  assumes "0 < x"
  shows "pow2r (ilog2 x) \<le> x"
proof (cases "1 \<le> x")
  case True
  let ?n = "\<lfloor>x\<rfloor>"
  have n: "0 < ?n" using True by simp
  have b: "1 \<le> bitlen ?n" using n bitlen_eq_zero_iff [of ?n] bitlen_nonneg [of ?n] by linarith
  have "(2::int) ^ nat (bitlen ?n - 1) \<le> ?n" using bitlen_bounds [OF n] by simp
  then have "of_int ((2::int) ^ nat (bitlen ?n - 1)) \<le> (of_int ?n :: rat)"
    by (simp only: of_int_le_iff)
  also have "\<dots> \<le> x" by simp
  finally show ?thesis using True b by (simp add: ilog2_def pow2r_def)
next
  case False
  let ?m = "\<lceil>1 / x\<rceil> - 1"
  have y: "1 < 1 / x" using False assms by simp
  then have m: "0 < ?m" by linarith
  have b: "1 \<le> bitlen ?m" using m bitlen_eq_zero_iff [of ?m] bitlen_nonneg [of ?m] by linarith
  have "?m < 2 ^ nat (bitlen ?m)" using bitlen_bounds [OF m] by simp
  then have "\<lceil>1 / x\<rceil> \<le> 2 ^ nat (bitlen ?m)" by simp
  then have "of_int \<lceil>1 / x\<rceil> \<le> (of_int (2 ^ nat (bitlen ?m)) :: rat)"
    by (simp only: of_int_le_iff)
  with le_of_int_ceiling [of "1 / x"]
  have "1 / x \<le> (of_int (2 ^ nat (bitlen ?m)) :: rat)" by (rule order_trans)
  then have "1 / x \<le> 2 ^ nat (bitlen ?m)" by simp
  then have "1 / 2 ^ nat (bitlen ?m) \<le> x"
    using assms by (simp add: field_simps)
  then show ?thesis using False b by (simp add: ilog2_def pow2r_def)
qed

lemma ilog2_less:
  assumes "0 < x"
  shows "x < pow2r (ilog2 x + 1)"
proof (cases "1 \<le> x")
  case True
  let ?n = "\<lfloor>x\<rfloor>"
  have n: "0 < ?n" using True by simp
  have b: "1 \<le> bitlen ?n" using n bitlen_eq_zero_iff [of ?n] bitlen_nonneg [of ?n] by linarith
  have "?n + 1 \<le> 2 ^ nat (bitlen ?n)" using bitlen_bounds [OF n] by simp
  then have "(of_int (?n + 1) :: rat) \<le> of_int (2 ^ nat (bitlen ?n))"
    by (simp only: of_int_le_iff)
  moreover have "x < of_int (?n + 1)" by linarith
  ultimately have "x < of_int (2 ^ nat (bitlen ?n))" by (rule less_le_trans [rotated])
  then show ?thesis using True b by (simp add: ilog2_def pow2r_def)
next
  case False
  let ?m = "\<lceil>1 / x\<rceil> - 1"
  have y: "1 < 1 / x" using False assms by simp
  then have m: "0 < ?m" by linarith
  have b: "1 \<le> bitlen ?m" using m bitlen_eq_zero_iff [of ?m] bitlen_nonneg [of ?m] by linarith
  have "(2::int) ^ nat (bitlen ?m - 1) \<le> ?m" using bitlen_bounds [OF m] by simp
  then have "(of_int (2 ^ nat (bitlen ?m - 1)) :: rat) \<le> of_int ?m"
    by (simp only: of_int_le_iff)
  moreover have "of_int ?m < 1 / x" by linarith
  ultimately have "(of_int (2 ^ nat (bitlen ?m - 1)) :: rat) < 1 / x" by (rule le_less_trans)
  then have "(2::rat) ^ nat (bitlen ?m - 1) < 1 / x" by simp
  then have lt: "x < 1 / 2 ^ nat (bitlen ?m - 1)" using assms by (simp add: field_simps)
  show ?thesis
  proof (cases "bitlen ?m = 1")
    case True
    then show ?thesis using False lt by (simp add: ilog2_def pow2r_def)
  next
    case False
    then have "nat (bitlen ?m - 1) = nat (- (1 - bitlen ?m))" by simp
    then show ?thesis using \<open>\<not> 1 \<le> x\<close> b False lt by (simp add: ilog2_def pow2r_def)
  qed
qed

lemma round_half_even_bounds: "\<lfloor>y\<rfloor> \<le> round_half_even y \<and> round_half_even y \<le> \<lceil>y\<rceil>"
proof -
  have "\<lfloor>y\<rfloor> + 1 \<le> \<lceil>y\<rceil>" if "y - of_int \<lfloor>y\<rfloor> \<noteq> 0"
    using that by (metis ceiling_altdef eq_iff_diff_eq_0 order_refl)
  moreover have "\<lfloor>y\<rfloor> \<le> \<lceil>y\<rceil>" by (rule floor_le_ceiling)
  ultimately show ?thesis
    by (auto simp: round_half_even_def Let_def)
qed

text \<open>
  The rounding on known values: the binary32 numbers nearest to 1/3 and 1/10
  (\<^verbatim>\<open>0x3EAAAAAB\<close> and \<^verbatim>\<open>0x3DCCCCCD\<close>), and ties going to the even significand.
\<close>

lemma fround_known_values:
  "fround (1 / 3) = 11184811 / 2 ^ 25" "fround (1 / 10) = 13421773 / 2 ^ 27"
  "fround 16777217 = 16777216" "fround 16777219 = 16777220" "fround (- 16777219) = - 16777220"
  by code_simp+

lemma fround_grid:
  assumes "0 < x" and "x < 2 ^ 24"
  shows "\<exists>K. fround x = of_int (round_half_even (x * 2 ^ K)) / 2 ^ K"
proof -
  have "pow2r (ilog2 x) < 2 ^ 24" using ilog2_le [OF assms(1)] assms(2) by simp
  then have e: "ilog2 x \<le> 23"
  proof -
    have "\<not> 24 \<le> ilog2 x"
    proof
      assume a: "24 \<le> ilog2 x"
      then have "(2::rat) ^ 24 \<le> 2 ^ nat (ilog2 x)"
        by (intro power_increasing) auto
      then show False using \<open>pow2r (ilog2 x) < 2 ^ 24\<close> a by (simp add: pow2r_def)
    qed
    then show ?thesis by simp
  qed
  have u: "pow2r (ilog2 x - 23) = 1 / 2 ^ nat (23 - ilog2 x)"
    using e by (cases "ilog2 x = 23") (auto simp: pow2r_def)
  show ?thesis
    using assms(1) by (intro exI [of _ "nat (23 - ilog2 x)"]) (simp add: fround_def u Let_def)
qed

lemma fround_ge_int:
  assumes "0 < x" and "x < 2 ^ 24" and "of_int n \<le> x"
  shows "of_int n \<le> fround x"
proof -
  obtain K where K: "fround x = of_int (round_half_even (x * 2 ^ K)) / 2 ^ K"
    using fround_grid [OF assms(1,2)] by blast
  have "(of_int (n * 2 ^ K) :: rat) \<le> x * 2 ^ K" using assms(3) by simp
  then have "n * 2 ^ K \<le> \<lfloor>x * 2 ^ K\<rfloor>" by (simp only: le_floor_iff)
  also have "\<dots> \<le> round_half_even (x * 2 ^ K)" using round_half_even_bounds by blast
  finally have "(of_int (n * 2 ^ K) :: rat) \<le> of_int (round_half_even (x * 2 ^ K))"
    by (simp only: of_int_le_iff)
  then show ?thesis unfolding K by (simp add: field_simps)
qed

lemma fround_le_int:
  assumes "0 < x" and "x < 2 ^ 24" and "x \<le> of_int n"
  shows "fround x \<le> of_int n"
proof -
  obtain K where K: "fround x = of_int (round_half_even (x * 2 ^ K)) / 2 ^ K"
    using fround_grid [OF assms(1,2)] by blast
  have "x * 2 ^ K \<le> (of_int (n * 2 ^ K) :: rat)" using assms(3) by simp
  then have "\<lceil>x * 2 ^ K\<rceil> \<le> n * 2 ^ K" by (simp only: ceiling_le_iff)
  then have "round_half_even (x * 2 ^ K) \<le> n * 2 ^ K"
    using round_half_even_bounds [of "x * 2 ^ K"] by linarith
  then have "(of_int (round_half_even (x * 2 ^ K)) :: rat) \<le> of_int (n * 2 ^ K)"
    by (simp only: of_int_le_iff)
  then show ?thesis unfolding K by (simp add: field_simps)
qed

lemma float_of_int_exact:
  assumes "0 \<le> i" and "i < 2 ^ 24"
  shows "float_of_int i = Finite (of_int i)"
proof (cases "i = 0")
  case True
  then show ?thesis by (simp add: float_of_int_def fround_def)
next
  case False
  then have p: "0 < (of_int i :: rat)" using assms by simp
  have "i < 16777216" using assms by simp
  then have "(of_int i :: rat) < of_int 16777216" by (simp only: of_int_less_iff)
  then have l: "(of_int i :: rat) < 2 ^ 24" by simp
  show ?thesis
    unfolding float_of_int_def
    using fround_ge_int [OF p l, of i] fround_le_int [OF p l, of i] by simp
qed

lemma trunc_fround:
  assumes "0 \<le> x" and "x < 2 ^ 24"
  shows "\<exists>t. int_of_float (Finite (fround x)) = Inr t \<and> \<lfloor>x\<rfloor> \<le> t \<and> t \<le> \<lceil>x\<rceil>"
proof (cases "x = 0")
  case True
  then show ?thesis by (simp add: fround_def)
next
  case False
  then have p: "0 < x" using assms by simp
  have lo: "of_int \<lfloor>x\<rfloor> \<le> fround x" by (rule fround_ge_int [OF p assms(2)]) simp
  have hi: "fround x \<le> of_int \<lceil>x\<rceil>" by (rule fround_le_int [OF p assms(2)]) simp
  have "0 \<le> \<lfloor>x\<rfloor>" using assms by simp
  then have nn: "0 \<le> fround x" using lo by (smt (verit) of_int_0_le_iff order_trans)
  have "\<lceil>x\<rceil> \<le> 2 ^ 24" using assms(2) by (simp add: ceiling_le_iff)
  then have "(of_int \<lceil>x\<rceil> :: rat) \<le> of_int (2 ^ 24)" by (simp only: of_int_le_iff)
  with hi have "fround x \<le> of_int (2 ^ 24)" by (rule order_trans)
  then have up: "fround x < 2 ^ 31" by simp
  have "int_of_float (Finite (fround x)) = Inr \<lfloor>fround x\<rfloor>"
    using nn up by simp
  moreover have "\<lfloor>x\<rfloor> \<le> \<lfloor>fround x\<rfloor>" using lo by (simp add: le_floor_iff)
  moreover have "\<lfloor>fround x\<rfloor> \<le> \<lceil>x\<rceil>" using hi by (simp add: floor_le_iff) 
  ultimately show ?thesis by blast
qed


lemma tick_length_16: "fdiv (float_of_int 20000) (float_of_int 65536) = Finite (20000 / 2 ^ 16)"
  by code_simp

lemma tick_length_17: "fdiv (float_of_int 20000) (float_of_int 131072) = Finite (20000 / 2 ^ 17)"
  by code_simp

lemma tick_length_18: "fdiv (float_of_int 20000) (float_of_int 262144) = Finite (20000 / 2 ^ 18)"
  by code_simp

lemma tick_length_19: "fdiv (float_of_int 20000) (float_of_int 524288) = Finite (20000 / 2 ^ 19)"
  by code_simp

lemma tick_length_20: "fdiv (float_of_int 20000) (float_of_int 1048576) = Finite (20000 / 2 ^ 20)"
  by code_simp


lemma width_cases:
  assumes "16 \<le> w" and "w \<le> 20"
  shows "w = 16 \<or> w = 17 \<or> w = 18 \<or> w = 19 \<or> w = (20::int)"
  using assms by arith

lemma tick_length_value:
  assumes "16 \<le> w" and "w \<le> 20" and "timer_width_ticks s = pow2 w"
  shows "tick_length s = Finite (20000 / 2 ^ nat w)"
  using width_cases [OF assms(1,2)] assms(3)
  by (auto simp: tick_length_def REFRESH_USEC_def pow2_def
      tick_length_16 tick_length_17 tick_length_18 tick_length_19 tick_length_20)

lemma pow_width_bounds:
  assumes "16 \<le> w" and "w \<le> 20"
  shows "(2::rat) ^ 16 \<le> 2 ^ nat w \<and> (2::rat) ^ nat w \<le> 2 ^ 20"
proof
  show "(2::rat) ^ 16 \<le> 2 ^ nat w" using assms by (intro power_increasing) auto
  show "(2::rat) ^ nat w \<le> 2 ^ 20" using assms by (intro power_increasing) auto
qed

lemma usToTicks_bounds:
  assumes "16 \<le> w" and "w \<le> 20" and "timer_width_ticks s = pow2 w"
    and "0 \<le> us" and "us \<le> 2500"
  shows "\<exists>t. usToTicks s us = Inr t
        \<and> \<lfloor>of_int us * 2 ^ nat w / (20000::rat)\<rfloor> \<le> t
        \<and> t \<le> \<lceil>of_int us * 2 ^ nat w / (20000::rat)\<rceil>"
proof -
  let ?x = "of_int us * 2 ^ nat w / (20000::rat)"
  have f: "float_of_int us = Finite (of_int us)"
    using assms(4,5) by (intro float_of_int_exact) auto
  have "(of_int us :: rat) \<le> of_int 2500" using assms(5) by (simp only: of_int_le_iff)
  then have u: "(of_int us :: rat) \<le> 2500" by simp
  have u0: "0 \<le> (of_int us :: rat)" using assms(4) by simp
  have "of_int us * (2::rat) ^ nat w \<le> 2500 * 2 ^ 20"
    using u u0 pow_width_bounds [OF assms(1,2)] by (intro mult_mono) auto
  then have x: "0 \<le> ?x" "?x < 2 ^ 24" using u0 by (auto simp: field_simps)
  have "usToTicks s us = int_of_float (Finite (fround ?x))"
    by (simp add: usToTicks_def tick_length_value [OF assms(1-3)] f)
  then show ?thesis using trunc_fround [OF x] by simp
qed

lemma ticksToUs_bounds:
  assumes "16 \<le> w" and "w \<le> 20" and "timer_width_ticks s = pow2 w"
    and "0 \<le> t" and "t \<le> 2 ^ 18"
  shows "\<exists>r. ticksToUs s t = Inr r
        \<and> \<lfloor>of_int t * (20000::rat) / 2 ^ nat w\<rfloor> \<le> r
        \<and> r \<le> \<lceil>of_int t * (20000::rat) / 2 ^ nat w\<rceil>"
proof -
  let ?y = "of_int t * (20000::rat) / 2 ^ nat w"
  have f: "float_of_int t = Finite (of_int t)"
    using assms(4,5) by (intro float_of_int_exact) auto
  have "(of_int t :: rat) \<le> of_int (2 ^ 18)" using assms(5) by (simp only: of_int_le_iff)
  then have u: "(of_int t :: rat) \<le> 2 ^ 18" by simp
  have u0: "0 \<le> (of_int t :: rat)" using assms(4) by simp
  have "of_int t * (20000::rat) \<le> 2 ^ 18 * 20000" using u by simp
  also have "\<dots> < 2 ^ 24 * 2 ^ 16" by simp
  also have "\<dots> \<le> 2 ^ 24 * 2 ^ nat w"
    using pow_width_bounds [OF assms(1,2)] by (intro mult_left_mono) auto
  finally have y: "0 \<le> ?y" "?y < 2 ^ 24" using u0 by (auto simp: field_simps)
  have "ticksToUs s t = int_of_float (Finite (fround ?y))"
    by (simp add: ticksToUs_def tick_length_value [OF assms(1-3)] f)
  then show ?thesis using trunc_fround [OF y] by simp
qed

lemma round_trip_bounds:
  assumes "16 \<le> w" and "w \<le> 20" and "timer_width_ticks s = pow2 w"
    and "0 \<le> us" and "us \<le> 2500"
  shows "\<exists>t r. usToTicks s us = Inr t \<and> 0 \<le> t \<and> t \<le> 2 ^ 18 \<and> ticksToUs s t = Inr r
          \<and> us - 1 \<le> r \<and> r \<le> us + 1"
proof -
  let ?P = "(2::rat) ^ nat w"
  have P: "(2::rat) ^ 16 \<le> ?P" "?P \<le> 2 ^ 20" using pow_width_bounds [OF assms(1,2)] by auto
  then have Ppos: "0 < ?P" by simp
  have L: "20000 < ?P" using P by simp
  obtain t where t: "usToTicks s us = Inr t"
    "\<lfloor>of_int us * ?P / 20000\<rfloor> \<le> t" "t \<le> \<lceil>of_int us * ?P / 20000\<rceil>"
    using usToTicks_bounds [OF assms] by blast
  have "(of_int us :: rat) \<le> of_int 2500" using assms(5) by (simp only: of_int_le_iff)
  then have u: "(of_int us :: rat) \<le> 2500" by simp
  have u0: "0 \<le> (of_int us :: rat)" using assms(4) by simp
  have tlo: "of_int us * ?P / 20000 - 1 < of_int t"
    using t(2) by linarith
  have thi: "of_int t < of_int us * ?P / 20000 + 1"
    using t(3) by linarith
  have t0: "0 \<le> t"
  proof -
    have "0 \<le> of_int us * ?P / 20000" using u0 by simp
    then have "0 \<le> \<lfloor>of_int us * ?P / 20000\<rfloor>" by (simp only: zero_le_floor)
    then show ?thesis using t(2) by (rule order_trans)
  qed
  have t1: "t \<le> 2 ^ 18"
  proof -
    have "of_int us * ?P \<le> 2500 * 2 ^ 20" using u u0 P by (intro mult_mono) auto
    then have "of_int us * ?P / 20000 \<le> of_int (2 ^ 17)" by (simp add: field_simps)
    then have "\<lceil>of_int us * ?P / 20000\<rceil> \<le> 2 ^ 17" by (simp only: ceiling_le_iff)
    with t(3) have "t \<le> 2 ^ 17" by (rule order_trans)
    then show ?thesis by simp
  qed
  obtain r where r: "ticksToUs s t = Inr r"
    "\<lfloor>of_int t * 20000 / ?P\<rfloor> \<le> r" "r \<le> \<lceil>of_int t * 20000 / ?P\<rceil>"
    using ticksToUs_bounds [OF assms(1-3) t0 t1] by blast
  have a: "of_int us - 1 < of_int t * 20000 / ?P"
  proof -
    have "of_int us * ?P - ?P < of_int us * ?P - 20000" using L by simp
    also have "\<dots> < of_int t * 20000" using tlo by (simp add: field_simps)
    finally show ?thesis using Ppos by (simp add: field_simps)
  qed
  have b: "of_int t * 20000 / ?P < of_int us + 1"
  proof -
    have "of_int t * 20000 < of_int us * ?P + 20000" using thi by (simp add: field_simps)
    also have "\<dots> < of_int us * ?P + ?P" using L by simp
    finally show ?thesis using Ppos by (simp add: field_simps)
  qed
  have "of_int (us - 1) \<le> of_int t * 20000 / ?P" using a by simp
  then have "us - 1 \<le> \<lfloor>of_int t * 20000 / ?P\<rfloor>" by (simp only: le_floor_iff)
  moreover have "of_int t * 20000 / ?P \<le> of_int (us + 1)" using b by simp
  then have "\<lceil>of_int t * 20000 / ?P\<rceil> \<le> us + 1" by (simp only: ceiling_le_iff)
  ultimately show ?thesis using t(1) t0 t1 r by auto
qed

section \<open>The conversions on concrete values\<close>

lemmas consts_defs = DEFAULT_TIMER_WIDTH_def DEFAULT_uS_LOW_def DEFAULT_uS_HIGH_def
  MIN_PULSE_WIDTH_def MAX_PULSE_WIDTH_def REFRESH_CPS_def REFRESH_USEC_def

lemma usToTicks_cong:
  "timer_width_ticks s = timer_width_ticks s' \<Longrightarrow> usToTicks s us = usToTicks s' us"
  by (simp add: usToTicks_def tick_length_def)

lemma ticksToUs_cong:
  "timer_width_ticks s = timer_width_ticks s' \<Longrightarrow> ticksToUs s t = ticksToUs s' t"
  by (simp add: ticksToUs_def tick_length_def)

text \<open>
  With 0 ticks in the period the tick length is infinite: \<^verbatim>\<open>usToTicks\<close> returns 0, and
  \<^verbatim>\<open>ticksToUs\<close> casts an infinity or a NaN.
\<close>

lemma zero_resolution:
  assumes "timer_width_ticks s = 0"
  shows "usToTicks s us = Inr 0" and "ticksToUs s t = Inl FloatToIntRange"
proof -
  have "fround 20000 = 20000" by code_simp
  then have l: "tick_length s = Infinity False"
    using assms by (simp add: tick_length_def float_of_int_def REFRESH_USEC_def fround_def)
  show "usToTicks s us = Inr 0" by (simp add: usToTicks_def l float_of_int_def)
  show "ticksToUs s t = Inl FloatToIntRange"
    by (simp add: ticksToUs_def l float_of_int_def)
qed

lemma usToTicks_demo: "usToTicks demo_servo 1500 = Inr 4915"
  by code_simp

lemma ticksToUs_demo: "ticksToUs demo_servo 4915 = Inr 1499"
  by code_simp

lemma usToTicks_demo_bounds:
  "usToTicks demo_servo 2400 = Inr 7864 \<and> usToTicks demo_servo 544 = Inr 1782
   \<and> usToTicks demo_servo 2000 = Inr 6553 \<and> usToTicks demo_servo 1000 = Inr 3276"
  by code_simp

text \<open>The state \<open>(demo_servo, demo_globals)\<close> is the one the three calls produce.\<close>

lemma demo_reached:
  "(case Servo esp32 raw initial of (s, g) \<Rightarrow>
      (case attach1 esp32 13 s g of (r, sa, ga) \<Rightarrow> writeMicroseconds esp32 1500 sa ga))
   = Inr (demo_servo, demo_globals)"
proof -
  have "usToTicks s 1500 = Inr 4915" if "timer_width_ticks s = 65536" for s
    using usToTicks_cong [of s demo_servo 1500] usToTicks_demo that by (simp add: demo_servo_def)
  then show ?thesis
    by (simp add: Servo_def reuse_loop.simps esp32_def initial_def init_fields_def
        attach1_def attach_def consts_defs pow2_def writeMicroseconds_def
        attached_def demo_servo_def demo_globals_def)
qed

text \<open>
  At width 16 one tick is 20000/65536 of a microsecond, and 1500 microseconds come
  back as 1499: the error of the round trip is a whole microsecond, more than one tick.
\<close>

theorem round_trip_exceeds_one_tick:
  "usToTicks demo_servo 1500 = Inr 4915 \<and> ticksToUs demo_servo 4915 = Inr 1499
   \<and> \<not> of_int \<bar>1500 - 1499\<bar>
         \<le> (of_int REFRESH_USEC :: rat) / of_int (timer_width_ticks demo_servo)"
proof -
  have "timer_width_ticks demo_servo = 65536" by (simp add: demo_servo_def)
  then show ?thesis by (simp add: usToTicks_demo ticksToUs_demo REFRESH_USEC_def)
qed

text \<open>
  C5 (amended). For every timer width \<open>w\<close> in \<open>[16, 20]\<close> and every \<open>us\<close> in the device
  range \<open>[500, 2500]\<close>, both conversions return, and \<open>ticksToUs (usToTicks us)\<close> differs from
  \<open>us\<close> by at most one microsecond.
\<close>

theorem round_trip_within_one_microsecond:
  assumes "16 \<le> w" and "w \<le> 20" and "timer_width_ticks s = pow2 w"
    and "MIN_PULSE_WIDTH \<le> us" and "us \<le> MAX_PULSE_WIDTH"
  shows "\<exists>t r. usToTicks s us = Inr t \<and> ticksToUs s t = Inr r \<and> \<bar>us - r\<bar> \<le> 1"
proof -
  have "0 \<le> us" "us \<le> 2500"
    using assms(4,5) by (simp_all add: MIN_PULSE_WIDTH_def MAX_PULSE_WIDTH_def)
  from round_trip_bounds [OF assms(1-3) this]
  obtain t r where "usToTicks s us = Inr t" "ticksToUs s t = Inr r" "us - 1 \<le> r" "r \<le> us + 1"
    by blast
  then show ?thesis by (intro exI [of _ t] exI [of _ r]) auto
qed

theorem round_trip_within_one_microsecond_witness:
  "\<exists>t r. usToTicks demo_servo 1500 = Inr t \<and> ticksToUs demo_servo t = Inr r \<and> \<bar>1500 - r\<bar> \<le> 1"
  using round_trip_within_one_microsecond [of 16 demo_servo 1500]
  by (simp add: demo_servo_def pow2_def MIN_PULSE_WIDTH_def MAX_PULSE_WIDTH_def)

section \<open>Detaching and attaching again\<close>

text \<open>
  C4. After \<^verbatim>\<open>detach\<close> the slot holds \<open>-1\<close>, which \<^verbatim>\<open>attached\<close> converts to true, and
  \<^verbatim>\<open>readMicroseconds\<close> still converts the stored ticks: on the object of
  \<open>demo_reached\<close>, bound to pin 13, it returns 1499 and not 0.
\<close>

theorem detached_reads_as_attached:
  "attached (fst (detach demo_servo demo_globals)) (snd (detach demo_servo demo_globals))
   \<and> ChannelUsed (snd (detach demo_servo demo_globals)) (servoChannel demo_servo) = -1
   \<and> readMicroseconds esp32 (fst (detach demo_servo demo_globals))
        (snd (detach demo_servo demo_globals)) = Inr 1499"
proof -
  have "ticksToUs s 4915 = Inr 1499" if "timer_width_ticks s = 65536" for s
    using ticksToUs_cong [of s demo_servo 4915] ticksToUs_demo that by (simp add: demo_servo_def)
  then show ?thesis
    by (simp add: detach_def attached_def readMicroseconds_def esp32_def demo_servo_def
        demo_globals_def)
qed

text \<open>The attach after a detach replaces the 4915 ticks written before by the default.\<close>

theorem reattach_changes_ticks:
  "ticks (fst (snd (attach1 esp32 13 (fst (detach demo_servo demo_globals))
                      (snd (detach demo_servo demo_globals))))) \<noteq> ticks demo_servo"
  by (simp add: esp32_def demo_servo_def demo_globals_def attached_def detach_def attach1_def
      attach_def Let_def)

text \<open>
  C8 (amended). On an attached object with a channel, \<^verbatim>\<open>detach\<close> leaves the stored tick
  count as it is; the \<^verbatim>\<open>attach\<close> that follows succeeds and sets the tick count to
  \<^verbatim>\<open>DEFAULT_PULSE_WIDTH_TICKS\<close>, whatever it was before.
\<close>

theorem detach_keeps_attach_resets_ticks:
  assumes "0 < servoChannel s" and "servoChannel s \<le> MAX_SERVOS h" and "attached s g"
  shows "ticks (fst (detach s g)) = ticks s
       \<and> fst (attach1 h pin (fst (detach s g)) (snd (detach s g))) = 1
       \<and> ticks (fst (snd (attach1 h pin (fst (detach s g)) (snd (detach s g)))))
           = DEFAULT_PULSE_WIDTH_TICKS h"
  using assms by (simp add: detach_def attach1_def attach_def Let_def)

theorem detach_keeps_attach_resets_ticks_witness:
  "ticks (fst (detach demo_servo demo_globals)) = 4915
   \<and> ticks (fst (snd (attach1 esp32 13 (fst (detach demo_servo demo_globals))
                        (snd (detach demo_servo demo_globals))))) = 4825"
  using detach_keeps_attach_resets_ticks [of demo_servo esp32 demo_globals 13]
  by (simp add: esp32_def demo_servo_def demo_globals_def attached_def)

section \<open>The pulse bounds stored by attach\<close>

lemma usToTicks_demo_3000: "usToTicks demo_servo 3000 = Inr 9830"
  by code_simp

lemma ticksToUs_demo_9830: "ticksToUs demo_servo 9830 = Inr 2999"
  by code_simp

text \<open>
  C9. \<^verbatim>\<open>attach\<close> checks \<^verbatim>\<open>min\<close> against the lower device bound and \<^verbatim>\<open>max\<close> against the
  upper one only. \<^verbatim>\<open>attach(13, 3000, 4000)\<close> on the object of \<open>demo_reached\<close> returns 1 and
  stores \<^verbatim>\<open>min\<close> = 3000, above the device maximum 2500 and above the stored \<^verbatim>\<open>max\<close> = 2500;
  \<^verbatim>\<open>writeMicroseconds(1500)\<close> then stores and sends 9830 ticks, a pulse of 2999
  microseconds.
\<close>

theorem attach_stores_invalid_minimum:
  "fst (attach esp32 13 3000 4000 demo_servo demo_globals) = 1
   \<and> min_us (fst (snd (attach esp32 13 3000 4000 demo_servo demo_globals))) = 3000
   \<and> max_us (fst (snd (attach esp32 13 3000 4000 demo_servo demo_globals))) = 2500
   \<and> \<not> min_us (fst (snd (attach esp32 13 3000 4000 demo_servo demo_globals))) \<le> MAX_PULSE_WIDTH
   \<and> (case writeMicroseconds esp32 1500
           (fst (snd (attach esp32 13 3000 4000 demo_servo demo_globals)))
           (snd (snd (attach esp32 13 3000 4000 demo_servo demo_globals))) of
         Inl e \<Rightarrow> False
       | Inr (s, g) \<Rightarrow> ticks s = 9830 \<and> readMicroseconds esp32 s g = Inr 2999)"
proof -
  let ?s = "demo_servo\<lparr>min_us := 3000, max_us := 2500\<rparr>"
  let ?g = "demo_globals\<lparr>ledc := ledc demo_globals @ [LedcSetup 1 50 16, LedcAttachPin 13 1]\<rparr>"
  have at: "attach esp32 13 3000 4000 demo_servo demo_globals = (1, ?s, ?g)"
    by (simp add: attach_def esp32_def consts_defs Let_def demo_servo_def)
  have u: "usToTicks ?s 3000 = Inr 9830"
    using usToTicks_cong [of ?s demo_servo] usToTicks_demo_3000 by simp
  have t: "ticksToUs (?s\<lparr>ticks := 9830\<rparr>) 9830 = Inr 2999"
    using ticksToUs_cong [of "?s\<lparr>ticks := 9830\<rparr>" demo_servo] ticksToUs_demo_9830 by simp
  have f: "servoChannel ?s = 1" "min_us ?s = 3000" "max_us ?s = 2500" "ChannelUsed ?g 1 = 1"
    by (simp_all add: demo_servo_def demo_globals_def)
  have w: "writeMicroseconds esp32 1500 ?s ?g
      = Inr (?s\<lparr>ticks := 9830\<rparr>, ?g\<lparr>ledc := ledc ?g @ [LedcWrite 1 9830]\<rparr>)"
    unfolding writeMicroseconds_def attached_def f by (simp add: u esp32_def)
  have r: "readMicroseconds esp32 (?s\<lparr>ticks := 9830\<rparr>) (?g\<lparr>ledc := ledc ?g @ [LedcWrite 1 9830]\<rparr>)
      = Inr 2999"
    using t f by (simp add: readMicroseconds_def attached_def esp32_def)
  show ?thesis unfolding at using w r f by (simp add: MAX_PULSE_WIDTH_def)
qed

text \<open>The side of each bound that the code does guard.\<close>

lemma attach_guarded_sides:
  assumes "0 < servoChannel s" and "servoChannel s \<le> MAX_SERVOS h"
  shows "MIN_PULSE_WIDTH \<le> min_us (fst (snd (attach h pin mn mx s g)))
       \<and> max_us (fst (snd (attach h pin mn mx s g))) \<le> MAX_PULSE_WIDTH"
  using assms by (simp add: attach_def Let_def split_beta)

section \<open>What every object with a channel satisfies\<close>

lemma Servo_well_formed:
  assumes "0 \<le> ServoCount g" and "servoChannel (fst (Servo h raw g)) \<noteq> 0"
  shows "well_formed h (fst (Servo h raw g))"
proof (cases "reuse_loop (MAX_SERVOS h) (ChannelUsed g) 1")
  case None
  then show ?thesis
    using assms
    by (auto simp: Servo_def init_fields_def well_formed_def consts_defs pow2_def split: if_splits)
next
  case (Some c)
  then show ?thesis
    using reuse_loop_range [OF Some]
    by (simp add: Servo_def init_fields_def well_formed_def consts_defs pow2_def)
qed

lemma attach_well_formed:
  "well_formed h s \<Longrightarrow> well_formed h (fst (snd (attach h pin mn mx s g)))"
  by (simp add: attach_def well_formed_def consts_defs Let_def)

lemma detach_well_formed: "well_formed h s \<Longrightarrow> well_formed h (fst (detach s g))"
  by (simp add: detach_def well_formed_def)

lemma writeMicroseconds_well_formed:
  "writeMicroseconds h v s g = Inr (s', g') \<Longrightarrow> well_formed h s \<Longrightarrow> well_formed h s'"
  by (auto simp: writeMicroseconds_def well_formed_def Let_def split: if_splits sum.splits)

lemma write_servo_well_formed:
  "write_servo h v s g = Inr (s', g') \<Longrightarrow> well_formed h s \<Longrightarrow> well_formed h s'"
  by (auto simp: write_servo_def Let_def split: if_splits sum.splits
      dest: writeMicroseconds_well_formed)

lemma setTimerWidth_well_formed:
  "setTimerWidth h v s g = Inr (s', g') \<Longrightarrow> well_formed h s \<Longrightarrow> well_formed h s'"
  by (auto simp: setTimerWidth_def well_formed_def Let_def split: if_splits sum.splits)

section \<open>Writing an angle and reading it back\<close>

lemma cdiv_nonneg: "0 \<le> a \<Longrightarrow> 0 < b \<Longrightarrow> cdiv a b = a div b"
  by (cases "a = 0") (simp_all add: cdiv_def)

lemma cdiv_mult_self: "cdiv (180 * d) 180 = d"
proof -
  have "\<bar>180 * d\<bar> = \<bar>d\<bar> * 180" by (simp add: abs_mult)
  then have "\<bar>180 * d\<bar> div 180 = \<bar>d\<bar>" by simp
  moreover have "sgn (180 * d) = sgn d" by (simp add: sgn_mult)
  ultimately have "cdiv (180 * d) 180 = sgn d * \<bar>d\<bar>" by (simp add: cdiv_def)
  then show ?thesis by (simp add: sgn_mult_abs)
qed

text \<open>
  Mapping back to degrees: from \<open>m = a * 1856 div 180\<close> microseconds above the minimum,
  or up to two more, the degrees are \<open>a\<close> or \<open>a - 1\<close>.
\<close>

lemma degrees_back:
  assumes "0 \<le> a" and "a \<le> 180" and "m = a * 1856 div 180" and "m \<le> k" and "k \<le> m + 2"
  shows "a - 1 \<le> k * 180 div 1856 \<and> k * 180 div (1856::int) \<le> a"
proof -
  have d: "m * 180 + a * 1856 mod 180 = a * 1856"
    unfolding assms(3) by (rule div_mult_mod_eq)
  have r: "0 \<le> a * 1856 mod 180" "a * 1856 mod 180 < 180"
    by (rule pos_mod_sign, simp) (rule pos_mod_bound, simp)
  have lo: "(a - 1) * 1856 \<le> k * 180" using d r assms(4) by (simp add: algebra_simps)
  have hi: "k * 180 < (a + 1) * 1856" using d r assms(5) by (simp add: algebra_simps)
  have "(a - 1) * 1856 div 1856 \<le> k * 180 div 1856"
    using lo by (rule zdiv_mono1) simp
  then have "a - 1 \<le> k * 180 div 1856" by simp
  moreover have "k * 180 div 1856 \<le> a"
  proof -
    have "k * 180 \<le> a * 1856 + 1855" using hi by (simp add: algebra_simps)
    then have "k * 180 div 1856 \<le> (a * 1856 + 1855) div 1856"
      by (rule zdiv_mono1) simp
    also have "\<dots> = a" by simp
    finally show ?thesis .
  qed
  ultimately show ?thesis by simp
qed

text \<open>
  C6. On an attached object with the default bounds 544 and 2400 and the default timer
  width, for every angle in \<open>[0, 180]\<close>, \<^verbatim>\<open>write(angle)\<close> and then \<^verbatim>\<open>read()\<close> both return,
  and the degrees read differ from the angle by at most 1.
\<close>

theorem write_read_within_one_degree:
  assumes ch: "servoChannel s \<le> MAX_SERVOS h" and att: "attached s g"
    and mn: "min_us s = DEFAULT_uS_LOW" and mx: "max_us s = DEFAULT_uS_HIGH"
    and tw: "timer_width_ticks s = pow2 DEFAULT_TIMER_WIDTH"
    and a: "0 \<le> angle" "angle \<le> 180"
  shows "\<exists>s' g' d. write_servo h angle s g = Inr (s', g') \<and> read h s' g' = Inr d
           \<and> \<bar>d - angle\<bar> \<le> 1"
proof -
  define m where "m = angle * 1856 div 180"
  define us where "us = m + 544"
  have m0: "0 \<le> m" using a(1) by (simp add: m_def pos_imp_zdiv_nonneg_iff)
  have "angle * 1856 \<le> 180 * 1856" using a(2) by simp
  then have "angle * 1856 div 180 \<le> 180 * 1856 div 180" by (rule zdiv_mono1) simp
  then have m1: "m \<le> 1856" by (simp add: m_def)
  have "cdiv ((angle - 0) * (2400 - 544)) (180 - 0) = angle * 1856 div 180"
    using a(1) by (simp add: cdiv_nonneg)
  then have mp: "map_long angle 0 180 (min_us s) (max_us s) = Inr us"
    by (simp add: map_long_def mn mx consts_defs us_def m_def)
  have u: "0 \<le> us" "us \<le> 2500" "min_us s \<le> us" "us \<le> max_us s"
    using m0 m1 by (simp_all add: us_def mn mx consts_defs)
  have tw16: "timer_width_ticks s = pow2 16" using tw by (simp add: consts_defs)
  obtain t r where tr: "usToTicks s us = Inr t" "ticksToUs s t = Inr r" "us - 1 \<le> r" "r \<le> us + 1"
    using round_trip_bounds [OF _ _ tw16 u(1,2)] by auto
  let ?s = "s\<lparr>ticks := t\<rparr>"
  let ?g = "g\<lparr>ledc := ledc g @ [LedcWrite (servoChannel s) t]\<rparr>"
  have "writeMicroseconds h us s g = Inr (?s, ?g)"
    using ch att u(3,4) tr(1) by (simp add: writeMicroseconds_def)
  then have w: "write_servo h angle s g = Inr (?s, ?g)"
    using a mp by (simp add: write_servo_def MIN_PULSE_WIDTH_def)
  have "ticksToUs ?s t = Inr r" using ticksToUs_cong [of ?s s t] tr(2) by simp
  then have rm: "readMicroseconds h ?s ?g = Inr r"
    using ch att by (simp add: readMicroseconds_def attached_def)
  have k: "m \<le> r - 543" "r - 543 \<le> m + 2" using tr(3,4) by (simp_all add: us_def)
  then have "0 \<le> (r - 543) * 180" using m0 by simp
  then have "cdiv ((r - 543) * 180) 1856 = (r - 543) * 180 div 1856"
    by (rule cdiv_nonneg) simp
  moreover have "(r + 1 - 544) * (180 - 0) = (r - 543) * (180 :: int)" by simp
  ultimately have "map_long (r + 1) 544 2400 0 180 = Inr ((r - 543) * 180 div 1856)"
    by (simp add: map_long_def)
  then have rd: "read h ?s ?g = Inr ((r - 543) * 180 div 1856)"
    using rm by (simp add: read_def mn mx consts_defs)
  have "angle - 1 \<le> (r - 543) * 180 div 1856 \<and> (r - 543) * 180 div 1856 \<le> angle"
    using a m_def k by (rule degrees_back)
  then have "\<bar>(r - 543) * 180 div 1856 - angle\<bar> \<le> 1" by linarith
  then show ?thesis using w rd by blast
qed

theorem write_read_within_one_degree_witness:
  "\<exists>s' g' d. write_servo esp32 90 demo_servo demo_globals = Inr (s', g')
      \<and> read esp32 s' g' = Inr d \<and> \<bar>d - 90\<bar> \<le> 1"
  using write_read_within_one_degree [of demo_servo esp32 demo_globals 90]
  by (simp add: demo_servo_def demo_globals_def esp32_def attached_def consts_defs pow2_def)

section \<open>The threshold between degrees and microseconds\<close>

lemma usToTicks_mono:
  assumes "16 \<le> w" and "w \<le> 20" and "timer_width_ticks s = pow2 w"
    and "0 \<le> a" and "a \<le> b" and "b \<le> 2500"
    and "usToTicks s a = Inr ta" and "usToTicks s b = Inr tb"
  shows "ta \<le> tb"
proof (cases "a = b")
  case True
  then show ?thesis using assms(7,8) by simp
next
  case False
  then have ab: "a + 1 \<le> b" using assms(5) by simp
  let ?P = "(2::rat) ^ nat w"
  have P: "(2::rat) ^ 16 \<le> ?P" using pow_width_bounds [OF assms(1,2)] by simp
  have ua: "ta \<le> \<lceil>of_int a * ?P / 20000\<rceil>"
    using usToTicks_bounds [OF assms(1-4)] assms(5,6,7) by auto
  have ub: "\<lfloor>of_int b * ?P / 20000\<rfloor> \<le> tb"
    using usToTicks_bounds [OF assms(1-3), of b] assms(4,5,6,8) by auto
  have "(of_int (a + 1) :: rat) \<le> of_int b" using ab by (simp only: of_int_le_iff)
  then have "(of_int a + 1) * ?P \<le> of_int b * ?P" by (intro mult_right_mono) auto
  moreover have "20000 * 2 \<le> ?P" using P by simp
  ultimately have "of_int a * ?P + 20000 * 2 \<le> of_int b * ?P" by (simp add: algebra_simps)
  then have x: "of_int a * ?P / 20000 + 2 \<le> of_int b * ?P / 20000" by (simp add: field_simps)
  have "of_int ta < of_int a * ?P / 20000 + 1" using ua by linarith
  moreover have "of_int b * ?P / 20000 - 1 < of_int tb" using ub by linarith
  ultimately have "(of_int ta :: rat) < of_int tb" using x by linarith
  then show ?thesis by simp
qed

text \<open>
  After \<^verbatim>\<open>attach(13, 2000, 1000)\<close> the stored minimum exceeds the stored maximum, and
  \<^verbatim>\<open>write(499)\<close> stores the ticks of the minimum, 6553, not those of the maximum, 3276.
\<close>

theorem write_threshold_inverted_bounds:
  "ticks (fst (projr (write_servo esp32 499
      (fst (snd (attach esp32 13 2000 1000 demo_servo demo_globals)))
      (snd (snd (attach esp32 13 2000 1000 demo_servo demo_globals)))))) = 6553
   \<and> usToTicks (fst (snd (attach esp32 13 2000 1000 demo_servo demo_globals)))
        (max_us (fst (snd (attach esp32 13 2000 1000 demo_servo demo_globals)))) = Inr 3276"
proof -
  let ?s = "demo_servo\<lparr>min_us := 2000, max_us := 1000\<rparr>"
  let ?g = "demo_globals\<lparr>ledc := ledc demo_globals @ [LedcSetup 1 50 16, LedcAttachPin 13 1]\<rparr>"
  have at: "attach esp32 13 2000 1000 demo_servo demo_globals = (1, ?s, ?g)"
    by (simp add: attach_def esp32_def consts_defs Let_def demo_servo_def)
  have u: "usToTicks ?s 2000 = Inr 6553" "usToTicks ?s 1000 = Inr 3276"
    using usToTicks_cong [of ?s demo_servo] usToTicks_demo_bounds by simp_all
  have f: "servoChannel ?s = 1" "min_us ?s = 2000" "max_us ?s = 1000" "ChannelUsed ?g 1 = 1"
    by (simp_all add: demo_servo_def demo_globals_def)
  have "map_long 180 0 180 2000 1000 = Inr 1000"
    using cdiv_mult_self [of "- 1000"] by (simp add: map_long_def)
  moreover have "writeMicroseconds esp32 1000 ?s ?g
      = Inr (?s\<lparr>ticks := 6553\<rparr>, ?g\<lparr>ledc := ledc ?g @ [LedcWrite 1 6553]\<rparr>)"
    unfolding writeMicroseconds_def attached_def f by (simp add: u esp32_def)
  ultimately have "write_servo esp32 499 ?s ?g
      = Inr (?s\<lparr>ticks := 6553\<rparr>, ?g\<lparr>ledc := ledc ?g @ [LedcWrite 1 6553]\<rparr>)"
    unfolding write_servo_def f by (simp add: MIN_PULSE_WIDTH_def)
  then show ?thesis unfolding at using u(2) f(3) by simp
qed

text \<open>
  C10 (amended). On every attached, well-formed object whose stored minimum exceeds 500
  and does not exceed its stored maximum (the defaults 544 and 2400 qualify),
  \<^verbatim>\<open>write(499)\<close> is taken as an angle, clamped to 180, and stores and sends the ticks of
  the maximum, while \<^verbatim>\<open>write(500)\<close> is taken as microseconds, clamped up to the minimum,
  and stores and sends the ticks of the minimum, which are not more.
\<close>

theorem write_threshold_jump:
  assumes wf: "well_formed h s" and att: "attached s g"
    and lo: "MIN_PULSE_WIDTH < min_us s" and le: "min_us s \<le> max_us s"
  shows "\<exists>tmax tmin. usToTicks s (max_us s) = Inr tmax \<and> usToTicks s (min_us s) = Inr tmin
           \<and> tmin \<le> tmax
           \<and> write_servo h 499 s g
               = Inr (s\<lparr>ticks := tmax\<rparr>, g\<lparr>ledc := ledc g @ [LedcWrite (servoChannel s) tmax]\<rparr>)
           \<and> write_servo h 500 s g
               = Inr (s\<lparr>ticks := tmin\<rparr>, g\<lparr>ledc := ledc g @ [LedcWrite (servoChannel s) tmin]\<rparr>)"
proof -
  have w: "16 \<le> timer_width s" "timer_width s \<le> 20" "timer_width_ticks s = pow2 (timer_width s)"
    and ch: "servoChannel s \<le> MAX_SERVOS h" and hi: "max_us s \<le> 2500"
    using wf by (simp_all add: well_formed_def MAX_PULSE_WIDTH_def)
  have lo': "500 < min_us s" using lo by (simp add: MIN_PULSE_WIDTH_def)
  obtain tmax where tmax: "usToTicks s (max_us s) = Inr tmax"
    using usToTicks_bounds [OF w, of "max_us s"] lo' le hi by auto
  obtain tmin where tmin: "usToTicks s (min_us s) = Inr tmin"
    using usToTicks_bounds [OF w, of "min_us s"] lo' le hi by auto
  have mono: "tmin \<le> tmax"
    using usToTicks_mono [OF w _ le hi tmin tmax] lo' by simp
  have "map_long 180 0 180 (min_us s) (max_us s) = Inr (max_us s)"
    using cdiv_mult_self [of "max_us s - min_us s"] by (simp add: map_long_def)
  moreover have "writeMicroseconds h (max_us s) s g
      = Inr (s\<lparr>ticks := tmax\<rparr>, g\<lparr>ledc := ledc g @ [LedcWrite (servoChannel s) tmax]\<rparr>)"
    using ch att le tmax by (simp add: writeMicroseconds_def)
  ultimately have a: "write_servo h 499 s g
      = Inr (s\<lparr>ticks := tmax\<rparr>, g\<lparr>ledc := ledc g @ [LedcWrite (servoChannel s) tmax]\<rparr>)"
    by (simp add: write_servo_def MIN_PULSE_WIDTH_def)
  have "writeMicroseconds h 500 s g
      = Inr (s\<lparr>ticks := tmin\<rparr>, g\<lparr>ledc := ledc g @ [LedcWrite (servoChannel s) tmin]\<rparr>)"
    using ch att lo' tmin by (simp add: writeMicroseconds_def)
  then have b: "write_servo h 500 s g
      = Inr (s\<lparr>ticks := tmin\<rparr>, g\<lparr>ledc := ledc g @ [LedcWrite (servoChannel s) tmin]\<rparr>)"
    by (simp add: write_servo_def MIN_PULSE_WIDTH_def)
  show ?thesis using tmax tmin mono a b by blast
qed

theorem write_threshold_jump_witness:
  "ticks (fst (projr (write_servo esp32 499 demo_servo demo_globals))) = 7864
   \<and> ticks (fst (projr (write_servo esp32 500 demo_servo demo_globals))) = 1782"
proof -
  have "usToTicks demo_servo 2400 = Inr 7864" "usToTicks demo_servo 544 = Inr 1782"
    using usToTicks_demo_bounds by simp_all
  moreover have "max_us demo_servo = 2400" "min_us demo_servo = 544"
    by (simp_all add: demo_servo_def)
  moreover have "well_formed esp32 demo_servo" "attached demo_servo demo_globals"
    by (simp_all add: well_formed_def demo_servo_def demo_globals_def esp32_def attached_def
        consts_defs pow2_def)
  ultimately show ?thesis
    using write_threshold_jump [of esp32 demo_servo demo_globals]
    by (auto simp: MIN_PULSE_WIDTH_def)
qed

section \<open>Changing the timer width on concrete values\<close>

lemma wrap32_id: "- (2 ^ 31) \<le> y \<Longrightarrow> y < 2 ^ 31 \<Longrightarrow> wrap32 y = y"
  by (simp add: wrap32_def)

lemma wrap32_wraps: "wrap32 (2 ^ 31) = - (2 ^ 31)"
  by (simp add: wrap32_def)

text \<open>
  What \<^verbatim>\<open>setTimerWidth\<close> does in each direction. Towards a wider timer the width
  difference is negative and the code shifts right by it.
\<close>

lemma setTimerWidth_wider:
  assumes "16 \<le> timer_width s" and "timer_width s < 20" and "timer_width s < v"
  shows "setTimerWidth h v s g = Inl ShiftCount"
  using assms by (simp add: setTimerWidth_def shr_def Let_def)

lemma setTimerWidth_narrower:
  assumes "timer_width s \<le> 20" and "16 \<le> v" and "v < timer_width s"
    and "setTimerWidth h v s g = Inr (s', g')"
  shows "ticks s' = wrap32 (ticks s * 2 ^ nat (timer_width s - v)) \<and> timer_width s' = v
       \<and> timer_width_ticks s' = pow2 v"
  using assms by (auto simp: setTimerWidth_def shr_def shl_def Let_def split: if_splits)

lemma setTimerWidth_same:
  assumes "16 \<le> timer_width s" and "timer_width s \<le> 20"
    and "setTimerWidth h (timer_width s) s g = Inr (s', g')"
  shows "ticks s' = ticks s \<and> timer_width s' = timer_width s"
  using assms by (auto simp: setTimerWidth_def shr_def Let_def split: if_splits)

text \<open>
  Towards a narrower timer the ticks are multiplied while each tick gets longer: from
  width 20 to width 16, 78643 ticks (1499 microseconds) become 1258288 ticks (383999
  microseconds).
\<close>

lemma setTimerWidth_narrower_demo:
  "readMicroseconds esp32
     (demo_servo\<lparr>ticks := 78643, timer_width := 20, timer_width_ticks := 1048576\<rparr>) demo_globals
     = Inr 1499
   \<and> (case setTimerWidth esp32 16
         (demo_servo\<lparr>ticks := 78643, timer_width := 20, timer_width_ticks := 1048576\<rparr>)
         demo_globals of
        Inl e \<Rightarrow> False
      | Inr (s, g) \<Rightarrow> ticks s = 1258288 \<and> readMicroseconds esp32 s g = Inr 383999)"
  by code_simp

text \<open>
  C7. On the object of \<open>demo_reached\<close> (width 16, 4915 ticks, 1499 microseconds),
  \<^verbatim>\<open>setTimerWidth(17)\<close> computes the width difference \<open>-1\<close> and shifts the ticks right by
  it: no tick count is defined, where 9830 ticks would keep the pulse width.
\<close>

theorem setTimerWidth_negative_shift:
  "setTimerWidth esp32 17 demo_servo demo_globals = Inl ShiftCount"
  by (simp add: setTimerWidth_def demo_servo_def shr_def shl_def)

end
